theory Spec2Isabelle
  imports Main "HOL-Library.Sublist" "HOL-Library.Multiset"
begin

section \<open>The bilibili widget of glance: data model\<close>

text \<open>
  The development embeds \<^verbatim>\<open>internal/glance/widget-bilibili.go\<close>. Instants
  (\<^verbatim>\<open>time.Time\<close>) and durations (\<^verbatim>\<open>time.Duration\<close>, \<^verbatim>\<open>durationField\<close>) are
  integers counting nanoseconds; \<^verbatim>\<open>now.After(t)\<close> is \<open>t < now\<close> and \<^verbatim>\<open>now.Add(d)\<close>
  is \<open>now + d\<close>. Go strings are byte strings, as \<^typ>\<open>string\<close> is. The package variable
  \<^verbatim>\<open>isDevelopment\<close> is read once from the environment; every function that
  consults it takes it as the parameter \<open>dev\<close>. Logging is left out: it changes no
  state of the widget.
\<close>

type_synonym instant = int
type_synonym duration = int


definition Hour :: duration where
  "Hour = 3600000000000"



definition wrap64 :: "int \<Rightarrow> int" where
  "wrap64 x = (x + 2 ^ 63) mod 2 ^ 64 - 2 ^ 63"

text \<open>
  \<^verbatim>\<open>time.Unix(sec, 0)\<close> stores the second counted from year 1 in an \<^verbatim>\<open>int64\<close>
  (\<^verbatim>\<open>sec + unixToInternal\<close>, which wraps), with no monotonic reading; \<^verbatim>\<open>After\<close> on two
  such times compares these stored seconds. A publish time is kept as this stored second.
\<close>

definition unixToInternal :: int where
  "unixToInternal = 62135596800"

definition unixTime :: "int \<Rightarrow> int" where
  "unixTime sec = wrap64 (sec + unixToInternal)"

text \<open>
  The fields of \<^verbatim>\<open>video\<close> that the file fills in (lines 437-444); the type itself is
  declared elsewhere in the package.
\<close>

record video =
  ThumbnailUrl :: string
  Title :: string
  Url :: string
  Author :: string
  AuthorUrl :: string
  TimePosted :: int

record bilibiliUPConfig =
  UID :: string
  Cache :: duration

text \<open>The anonymous struct stored in \<^verbatim>\<open>cachedVideos\<close>.\<close>

record cacheEntry =
  videos :: "video list"
  expireAt :: instant

text \<open>
  Errors as values. \<open>TaskError\<close> is what one request's task reports (transport or
  decoding), \<open>PoolError\<close> what the worker pool itself reports. The others are the
  errors this file builds: the sentinel \<^verbatim>\<open>errNoContent\<close>, the same wrapped around a
  pool error (line 395), \<^verbatim>\<open>errPartialContent\<close> wrapped with the number of failed
  users (line 460), the wrapper of \<^verbatim>\<open>update\<close> (line 208) and the error of
  \<^verbatim>\<open>Render\<close> (line 310).
\<close>

datatype error =
    TaskError string
  | PoolError string
  | ErrNoContent
  | ErrNoContentBecause error
  | ErrPartialContent nat
  | FetchFailed error
  | NoVideoData

text \<open>
  The fields of \<^verbatim>\<open>bilibiliWidget\<close> (lines 105-119) without the embedded
  \<^verbatim>\<open>widgetBase\<close>. The Go map is a partial function; the widget is taken after
  \<^verbatim>\<open>initialize\<close> has allocated it (a write to the \<^verbatim>\<open>nil\<close> map of a widget that was
  never initialised is outside the model).
\<close>

record bilibiliWidget =
  Videos :: "video list"
  Style :: string
  CollapseAfter :: int
  CollapseAfterRows :: int
  UPs :: "bilibiliUPConfig list"
  UpdateInterval :: duration
  Limit :: int
  cachedVideos :: "string \<rightharpoonup> cacheEntry"
  Error :: "error option"

section \<open>initialize\<close>

text \<open>
  Lines 121-151. The map is allocated empty, the three display settings get their
  defaults, and the function returns \<^verbatim>\<open>nil\<close>: the result is \<open>Inr\<close> of the widget.
  (The title set through the embedded \<^verbatim>\<open>widgetBase\<close> is not part of this file.)
\<close>

definition initialize :: "bilibiliWidget \<Rightarrow> error + bilibiliWidget" where
  "initialize widget =
    (let widget = widget\<lparr>cachedVideos := Map.empty\<rparr>;
         widget = (if Limit widget \<le> 0 then widget\<lparr>Limit := 25\<rparr> else widget);
         widget = (if CollapseAfterRows widget = 0 \<or> CollapseAfterRows widget < -1
                   then widget\<lparr>CollapseAfterRows := 4\<rparr> else widget);
         widget = (if CollapseAfter widget = 0 \<or> CollapseAfter widget < -1
                   then widget\<lparr>CollapseAfter := 7\<rparr> else widget)
     in Inr widget)"

section \<open>Requests, responses and the worker pool\<close>

record request =
  reqMethod :: string
  reqUrl :: string
  reqHeader :: "(string \<times> string) list"

text \<open>\<^verbatim>\<open>bilibiliVideoResponse\<close> (lines 332-347), with the nested structs flattened.\<close>

record vlistItem =
  vTitle :: string
  vAuthor :: string
  vAid :: int
  vBvid :: string
  vPic :: string
  vCreated :: int

record bilibiliVideoResponse =
  Code :: int
  Message :: string
  Vlist :: "vlistItem list"

definition zeroResponse :: bilibiliVideoResponse where
  "zeroResponse = \<lparr>Code = 0, Message = [], Vlist = []\<rparr>"

text \<open>
  \<^verbatim>\<open>http.NewRequest("GET", url, nil)\<close> of Go's standard library fails exactly when
  \<^verbatim>\<open>url.Parse\<close> rejects the URL. For the URLs built here (a fixed scheme, host and
  path, the UID inside the query) \<^verbatim>\<open>url.Parse\<close> cuts the URL at the first
  \<^verbatim>\<open>#\<close>, rejects an ASCII control byte (below 0x20, or 0x7f) before the cut and
  rejects a fragment after it in which a \<^verbatim>\<open>%\<close> is not followed by two hex digits; the
  query is not looked at.
\<close>

definition isCTLByte :: "char \<Rightarrow> bool" where
  "isCTLByte c = ((of_char c :: nat) < 32 \<or> (of_char c :: nat) = 127)"

definition ishex :: "char \<Rightarrow> bool" where
  "ishex c = (let n = (of_char c :: nat) in
     (48 \<le> n \<and> n \<le> 57) \<or> (97 \<le> n \<and> n \<le> 102) \<or> (65 \<le> n \<and> n \<le> 70))"

fun validEscapes :: "string \<Rightarrow> bool" where
  "validEscapes [] = True"
| "validEscapes (c # cs) =
     (if c = CHR ''%'' then
        (case cs of
           a # b # rest \<Rightarrow> ishex a \<and> ishex b \<and> validEscapes rest
         | _ \<Rightarrow> False)
      else validEscapes cs)"

definition urlParses :: "string \<Rightarrow> bool" where
  "urlParses rawURL =
    (let u = takeWhile (\<lambda>c. c \<noteq> CHR ''#'') rawURL;
         frag = drop 1 (dropWhile (\<lambda>c. c \<noteq> CHR ''#'') rawURL)
     in \<not> list_ex isCTLByte u \<and> validEscapes frag)"

definition newRequest :: "string \<Rightarrow> string \<Rightarrow> request option" where
  "newRequest method url =
    (if urlParses url then Some \<lparr>reqMethod = method, reqUrl = url, reqHeader = []\<rparr>
     else None)"

definition headerAdd :: "string \<Rightarrow> string \<Rightarrow> request \<Rightarrow> request" where
  "headerAdd k v r = r\<lparr>reqHeader := reqHeader r @ [(k, v)]\<rparr>"

definition apiUrl :: "string \<Rightarrow> string" where
  "apiUrl uid = ''https://api.bilibili.com/x/space/arc/search?mid='' @ uid
                @ ''&ps=30&tid=0&pn=1&order=pubdate''"

definition userAgent :: string where
  "userAgent = ''Mozilla/5.0 (Macintosh; Intel Mac OS X 10_15_7) AppleWebKit/537.36 (KHTML, like Gecko) Chrome/122.0.0.0 Safari/537.36''"

text \<open>The headers of lines 369-373.\<close>

definition addHeaders :: "string \<Rightarrow> request \<Rightarrow> request" where
  "addHeaders uid request =
    headerAdd ''Referer'' (''https://space.bilibili.com/'' @ uid @ ''/video'')
      (headerAdd ''Origin'' ''https://space.bilibili.com''
        (headerAdd ''Accept-Language'' ''zh-CN,zh;q=0.9,en;q=0.8''
          (headerAdd ''Accept'' ''application/json, text/plain, */*''
            (headerAdd ''User-Agent'' userAgent request))))"

text \<open>
  The loop of lines 352-381: a UID whose request cannot be built is skipped
  (\<^verbatim>\<open>continue\<close>), so the list of requests can be shorter than the list of UIDs.
\<close>

fun buildRequests :: "string list \<Rightarrow> request list" where
  "buildRequests [] = []"
| "buildRequests (uid # uids) =
     (case newRequest ''GET'' (apiUrl uid) of
        None \<Rightarrow> buildRequests uids
      | Some request \<Rightarrow> addHeaders uid request # buildRequests uids)"

text \<open>
  What lies outside the program during one call of the fetcher: what the task
  \<^verbatim>\<open>decodeJsonFromRequestTask[bilibiliVideoResponse](bilibiliHTTPClient)\<close> yields for
  a request (the decoded body, or the error of the transport or the decoder), and
  whether the pool itself fails. Within one call the task is a function of the request:
  two equal requests get the same outcome.
\<close>

record world =
  task :: "request \<Rightarrow> error + bilibiliVideoResponse"
  poolErr :: "error option"

text \<open>
  Modelled from the spec: \<^verbatim>\<open>workerPoolDo\<close> (and \<^verbatim>\<open>newJob\<close>, \<^verbatim>\<open>withWorkers\<close>) are not
  in this file. The spec's contract (4.2): two order-aligned sequences, one result and
  one error-or-nil per request, index i of the output for index i of the input; a
  pool-level error aborts the whole call and returns no partial results. A failed
  request leaves the zero value in its result slot.
\<close>

definition workerPoolDo ::
  "world \<Rightarrow> request list \<Rightarrow> error + (bilibiliVideoResponse list \<times> error option list)" where
  "workerPoolDo wd requests =
    (case poolErr wd of
       Some err \<Rightarrow> Inl err
     | None \<Rightarrow>
         Inr (map (\<lambda>r. case task wd r of Inl e \<Rightarrow> zeroResponse | Inr resp \<Rightarrow> resp) requests,
              map (\<lambda>r. case task wd r of Inl e \<Rightarrow> Some e | Inr resp \<Rightarrow> None) requests))"

text \<open>
  Modelled from the spec: \<^verbatim>\<open>videoList.sortByNewest\<close> is not in this file. The data
  model of the spec: the sort key is the publish timestamp, descending, ties in
  stable input order.
\<close>

definition sortByNewest :: "video list \<Rightarrow> video list" where
  "sortByNewest vs = sort_key (\<lambda>v. - TimePosted v) vs"

section \<open>fetchBilibiliUserVideos\<close>

definition mkVideo :: "string \<Rightarrow> vlistItem \<Rightarrow> video" where
  "mkVideo uid v =
    \<lparr>ThumbnailUrl = vPic v,
     Title = vTitle v,
     Url = ''https://www.bilibili.com/video/'' @ vBvid v,
     Author = vAuthor v,
     AuthorUrl = ''https://space.bilibili.com/'' @ uid,
     TimePosted = unixTime (vCreated v)\<rparr>"

text \<open>
  The loop of lines 401-446, \<^verbatim>\<open>for i := range responses\<close>, reading \<^verbatim>\<open>errs[i]\<close> and
  \<^verbatim>\<open>uids[i]\<close>: the three lists are walked together, and running out of UIDs or of
  errors before the responses end is the index-out-of-range panic (\<open>None\<close>). The
  result is the videos appended so far and the counter \<^verbatim>\<open>failed\<close>.
\<close>

fun collectVideos ::
  "string list \<Rightarrow> bilibiliVideoResponse list \<Rightarrow> error option list \<Rightarrow> (video list \<times> nat) option" where
  "collectVideos uids [] errs = Some ([], 0)"
| "collectVideos (uid # uids) (response # responses) (err # errs) =
     (case collectVideos uids responses errs of
        None \<Rightarrow> None
      | Some (vs, failed) \<Rightarrow>
          (if err \<noteq> None then Some (vs, failed + 1)
           else if Code response \<noteq> 0 then Some (vs, failed + 1)
           else Some (map (mkVideo uid) (Vlist response) @ vs, failed)))"
| "collectVideos uids (response # responses) errs = None"

text \<open>
  Lines 349-468. The result is the pair the Go function returns (a \<^verbatim>\<open>nil\<close> list is
  \<open>[]\<close>), inside \<open>Some\<close>; \<open>None\<close> is a panic.
\<close>

definition fetchBilibiliUserVideos ::
  "world \<Rightarrow> string list \<Rightarrow> (video list \<times> error option) option" where
  "fetchBilibiliUserVideos wd uids =
    (let requests = buildRequests uids in
     case workerPoolDo wd requests of
       Inl err \<Rightarrow> Some ([], Some (ErrNoContentBecause err))
     | Inr (responses, errs) \<Rightarrow>
         (case collectVideos uids responses errs of
            None \<Rightarrow> None
          | Some (vs, failed) \<Rightarrow>
              if length vs = 0 then Some ([], Some ErrNoContent)
              else if failed > 0 then Some (sortByNewest vs, Some (ErrPartialContent failed))
              else Some (sortByNewest vs, None)))"

section \<open>update\<close>

text \<open>\<^verbatim>\<open>contains\<close> (lines 286-293) and \<^verbatim>\<open>strings.HasSuffix\<close>.\<close>

fun contains :: "string list \<Rightarrow> string \<Rightarrow> bool" where
  "contains [] str = False"
| "contains (s # slice) str = (if s = str then True else contains slice str)"

definition hasSuffix :: "string \<Rightarrow> string \<Rightarrow> bool" where
  "hasSuffix s suf = (length suf \<le> length s \<and> drop (length s - length suf) s = suf)"

text \<open>
  The loop of lines 172-192 (normal mode), with the two accumulators \<^verbatim>\<open>allVideos\<close>
  and \<^verbatim>\<open>needUpdate\<close>.
\<close>

fun checkCache ::
  "(string \<rightharpoonup> cacheEntry) \<Rightarrow> instant \<Rightarrow> bilibiliUPConfig list
    \<Rightarrow> video list \<times> string list \<Rightarrow> video list \<times> string list" where
  "checkCache cached now [] acc = acc"
| "checkCache cached now (up # ups) (allVideos, needUpdate) =
     (case cached (UID up) of
        None \<Rightarrow> checkCache cached now ups (allVideos, needUpdate @ [UID up])
      | Some cache \<Rightarrow>
          if expireAt cache < now
          then checkCache cached now ups (allVideos, needUpdate @ [UID up])
          else checkCache cached now ups (allVideos @ videos cache, needUpdate))"

text \<open>Lines 160-193: the cached videos to keep and the UIDs to refresh.\<close>

definition checkStale ::
  "bool \<Rightarrow> bilibiliWidget \<Rightarrow> instant \<Rightarrow> video list \<times> string list" where
  "checkStale dev widget now =
    (if dev then ([], map UID (UPs widget))
     else checkCache (cachedVideos widget) now (UPs widget) ([], []))"

definition needUpdate :: "bool \<Rightarrow> bilibiliWidget \<Rightarrow> instant \<Rightarrow> string list" where
  "needUpdate dev widget now = snd (checkStale dev widget now)"

text \<open>Lines 225-237, the assignments in the order of the source.\<close>

definition cacheDuration :: "bool \<Rightarrow> duration \<Rightarrow> bilibiliUPConfig \<Rightarrow> duration" where
  "cacheDuration dev updateInterval up =
    (let d = 2 * Hour in
     if \<not> dev then
       (let d = (if updateInterval > 0 then updateInterval else d);
            d = (if Cache up > 0 then Cache up else d)
        in d)
     else 0)"

text \<open>The loop of lines 220-263 over the configured UPs, on the cache and \<^verbatim>\<open>allVideos\<close>.\<close>

fun refreshCache ::
  "bool \<Rightarrow> duration \<Rightarrow> instant \<Rightarrow> string list \<Rightarrow> video list \<Rightarrow> bilibiliUPConfig list
    \<Rightarrow> (string \<rightharpoonup> cacheEntry) \<times> video list \<Rightarrow> (string \<rightharpoonup> cacheEntry) \<times> video list" where
  "refreshCache dev ui now need newVideos [] st = st"
| "refreshCache dev ui now need newVideos (up # ups) (cached, allVideos) =
     (if \<not> contains need (UID up)
      then refreshCache dev ui now need newVideos ups (cached, allVideos)
      else
        (let upVideos = filter (\<lambda>v. hasSuffix (AuthorUrl v) (''/'' @ UID up)) newVideos
         in refreshCache dev ui now need newVideos ups
              (cached(UID up \<mapsto> \<lparr>videos = upVideos, expireAt = now + cacheDuration dev ui up\<rparr>),
               allVideos @ upVideos)))"

text \<open>
  Lines 268-278: sort, then cut to the limit. \<^verbatim>\<open>allVideos[:widget.Limit]\<close> with a
  negative limit is a run-time panic (\<open>None\<close>).
\<close>

definition finish :: "bilibiliWidget \<Rightarrow> video list \<Rightarrow> bilibiliWidget option" where
  "finish widget allVideos =
    (let allVideos = sortByNewest allVideos in
     if int (length allVideos) > Limit widget then
       (if Limit widget < 0 then None
        else Some (widget\<lparr>Videos := take (nat (Limit widget)) allVideos\<rparr>))
     else Some (widget\<lparr>Videos := allVideos\<rparr>))"

text \<open>
  Lines 153-283. \<open>now\<close> is the reading of \<^verbatim>\<open>time.Now()\<close> at line 160. The result is
  the widget after the call, \<open>None\<close> when the call panics.
\<close>

definition update :: "bool \<Rightarrow> world \<Rightarrow> instant \<Rightarrow> bilibiliWidget \<Rightarrow> bilibiliWidget option" where
  "update dev wd now widget =
    (case checkStale dev widget now of
       (allVideos, need) \<Rightarrow>
         if length need > 0 then
           (case fetchBilibiliUserVideos wd need of
              None \<Rightarrow> None
            | Some (newVideos, Some err) \<Rightarrow> Some (widget\<lparr>Error := Some (FetchFailed err)\<rparr>)
            | Some (newVideos, None) \<Rightarrow>
                (case refreshCache dev (UpdateInterval widget) now need newVideos (UPs widget)
                        (cachedVideos widget, allVideos) of
                   (cached, allVideos) \<Rightarrow> finish (widget\<lparr>cachedVideos := cached\<rparr>) allVideos))
         else finish widget allVideos)"

text \<open>
  The state change of \<^verbatim>\<open>Render\<close> (lines 295-330); the HTML it returns is not modelled.
\<close>

definition Render :: "bool \<Rightarrow> world \<Rightarrow> instant \<Rightarrow> bilibiliWidget \<Rightarrow> bilibiliWidget option" where
  "Render dev wd now widget =
    (if length (Videos widget) = 0 then
       (case update dev wd now widget of
          None \<Rightarrow> None
        | Some widget \<Rightarrow>
            if length (Videos widget) = 0 then Some (widget\<lparr>Error := Some NoVideoData\<rparr>)
            else Some widget)
     else Some widget)"

section \<open>Derived notions used in the statements\<close>

text \<open>
  A configured UP is fresh at \<open>now\<close> when line 173 finds an entry and line 177 does
  not find it expired: the third branch of the loop, the one that uses the cache.
\<close>

definition isFresh :: "(string \<rightharpoonup> cacheEntry) \<Rightarrow> instant \<Rightarrow> bilibiliUPConfig \<Rightarrow> bool" where
  "isFresh cached now up =
    (case cached (UID up) of None \<Rightarrow> False | Some cache \<Rightarrow> \<not> expireAt cache < now)"

text \<open>
  What line 202 hands to the rest of \<^verbatim>\<open>update\<close>: the fetched videos when nothing is
  stale (none) or when the fetcher returns no error; \<open>None\<close> when the pass stops at
  line 209.
\<close>

definition fetchedVideos :: "bool \<Rightarrow> world \<Rightarrow> instant \<Rightarrow> bilibiliWidget \<Rightarrow> video list option" where
  "fetchedVideos dev wd now widget =
    (if length (needUpdate dev widget now) > 0 then
       (case fetchBilibiliUserVideos wd (needUpdate dev widget now) of
          Some (newVideos, None) \<Rightarrow> Some newVideos
        | _ \<Rightarrow> None)
     else Some [])"

text \<open>The value of \<^verbatim>\<open>allVideos\<close> when line 269 is reached, before it is sorted.\<close>

definition mergeAll :: "bool \<Rightarrow> bilibiliWidget \<Rightarrow> instant \<Rightarrow> video list \<Rightarrow> video list" where
  "mergeAll dev widget now newVideos =
    (case checkStale dev widget now of
       (allVideos, need) \<Rightarrow>
         if length need > 0 then
           snd (refreshCache dev (UpdateInterval widget) now need newVideos (UPs widget)
                 (cachedVideos widget, allVideos))
         else allVideos)"

text \<open>Line 359 returns a request for the UID (the branch of line 360 is not taken).\<close>

definition requestBuilt :: "string \<Rightarrow> bool" where
  "requestBuilt uid = (newRequest ''GET'' (apiUrl uid) \<noteq> None)"

text \<open>
  The value of the counter \<^verbatim>\<open>failed\<close> when line 448 is reached (no pool-level error):
  the issued requests whose task failed or whose response has a non-zero status code.
\<close>

definition failedCount :: "world \<Rightarrow> string list \<Rightarrow> nat" where
  "failedCount wd uids =
    length (filter (\<lambda>r. case task wd r of Inl e \<Rightarrow> True | Inr resp \<Rightarrow> Code resp \<noteq> 0)
                   (buildRequests uids))"

text \<open>
  The words of the spec about the fetcher, over the sources that were requested. The
  outcome of a requested source is what the task yields for its request; a source whose
  request could not be built has none. A source succeeds when its outcome is a response
  whose status code is zero, and fails otherwise. The failed sources and the items
  obtained are counted over the requested sources, in request order (a pool-level error
  leaves no item).
\<close>

definition sourceOutcome :: "world \<Rightarrow> string \<Rightarrow> (error + bilibiliVideoResponse) option" where
  "sourceOutcome wd uid =
    (case newRequest ''GET'' (apiUrl uid) of
       None \<Rightarrow> None
     | Some request \<Rightarrow> Some (task wd (addHeaders uid request)))"

definition outcomes :: "world \<Rightarrow> string list \<Rightarrow> (error + bilibiliVideoResponse) option list" where
  "outcomes wd uids = map (sourceOutcome wd) uids"

definition succeeded :: "(error + bilibiliVideoResponse) option \<Rightarrow> bool" where
  "succeeded out =
    (case out of None \<Rightarrow> False | Some (Inl e) \<Rightarrow> False | Some (Inr resp) \<Rightarrow> Code resp = 0)"

definition itemsOf :: "(error + bilibiliVideoResponse) option \<Rightarrow> nat" where
  "itemsOf out =
    (case out of
       None \<Rightarrow> 0
     | Some (Inl e) \<Rightarrow> 0
     | Some (Inr resp) \<Rightarrow> if Code resp = 0 then length (Vlist resp) else 0)"

definition failedSources :: "world \<Rightarrow> string list \<Rightarrow> nat" where
  "failedSources wd uids = length (filter (\<lambda>out. \<not> succeeded out) (outcomes wd uids))"

definition obtainedItems :: "world \<Rightarrow> string list \<Rightarrow> nat" where
  "obtainedItems wd uids =
    (case poolErr wd of Some e \<Rightarrow> 0 | None \<Rightarrow> sum_list (map itemsOf (outcomes wd uids)))"

section \<open>delayedHTTPClient\<close>










section \<open>Concrete inputs\<close>

definition exItem :: "string \<Rightarrow> int \<Rightarrow> vlistItem" where
  "exItem bvid created =
     \<lparr>vTitle = ''t'', vAuthor = ''a'', vAid = 1, vBvid = bvid, vPic = ''p'', vCreated = created\<rparr>"

definition exUP :: "string \<Rightarrow> bilibiliUPConfig" where
  "exUP uid = \<lparr>UID = uid, Cache = 0\<rparr>"

definition exWidget ::
  "bilibiliUPConfig list \<Rightarrow> int \<Rightarrow> (string \<rightharpoonup> cacheEntry) \<Rightarrow> bilibiliWidget" where
  "exWidget ups limit cached =
     \<lparr>Videos = [], Style = [], CollapseAfter = 7, CollapseAfterRows = 4, UPs = ups,
      UpdateInterval = 0, Limit = limit, cachedVideos = cached, Error = None\<rparr>"

text \<open>One UP whose cache entry expires at instant 100.\<close>

definition exCached :: bilibiliWidget where
  "exCached = exWidget [exUP ''1''] 25 [''1'' \<mapsto> \<lparr>videos = [], expireAt = 100\<rparr>]"

text \<open>Every request fails but the one for UID 2, which yields one video.\<close>

definition worldOnly2 :: world where
  "worldOnly2 =
     \<lparr>task = (\<lambda>r. if reqUrl r = apiUrl ''2''
                   then Inr \<lparr>Code = 0, Message = ''0'', Vlist = [exItem ''BV2'' 7]\<rparr>
                   else Inl (TaskError ''timeout'')),
      poolErr = None\<rparr>"

text \<open>A widget that carries the error of an earlier pass.\<close>

definition exFailed :: bilibiliWidget where
  "exFailed = (exWidget [exUP ''2''] 25 Map.empty)\<lparr>Error := Some (FetchFailed ErrNoContent)\<rparr>"


text \<open>Every request succeeds: one video for UID 2, two videos for any other UID.\<close>

definition worldAll :: world where
  "worldAll =
     \<lparr>task = (\<lambda>r. if reqUrl r = apiUrl ''2''
                   then Inr \<lparr>Code = 0, Message = ''0'', Vlist = [exItem ''BV2'' 7]\<rparr>
                   else Inr \<lparr>Code = 0, Message = ''0'',
                            Vlist = [exItem ''BV3a'' 9, exItem ''BV3b'' 3]\<rparr>),
      poolErr = None\<rparr>"

text \<open>Widgets with an empty cache: one UP, two UPs, the same UP twice, two UPs and limit 2.\<close>

definition exOne :: bilibiliWidget where
  "exOne = exWidget [exUP ''1''] 25 Map.empty"

definition exTwo :: bilibiliWidget where
  "exTwo = exWidget [exUP ''1'', exUP ''2''] 25 Map.empty"




text \<open>A video of UP 1 posted at the given time.\<close>

definition exVideo :: "int \<Rightarrow> video" where
  "exVideo t = mkVideo ''1'' (exItem ''BV1'' t)"

text \<open>UP 1 is cached with two videos until instant 100; the limit is 1.\<close>

definition exTrunc :: bilibiliWidget where
  "exTrunc = exWidget [exUP ''1''] 1
               [''1'' \<mapsto> \<lparr>videos = [exVideo 2, exVideo 1], expireAt = 100\<rparr>]"

text \<open>UP 1 is cached with two videos until instant 100, UP 2 has no entry.\<close>

definition exMixed :: bilibiliWidget where
  "exMixed = exWidget [exUP ''1'', exUP ''2''] 25
               [''1'' \<mapsto> \<lparr>videos = [exVideo 2, exVideo 1], expireAt = 100\<rparr>]"

text \<open>Two UPs, the first with its own cache duration of 5 nanoseconds.\<close>

definition exTTL :: bilibiliWidget where
  "exTTL = exWidget [\<lparr>UID = ''2'', Cache = 5\<rparr>, exUP ''3''] 25 Map.empty"

section \<open>Auxiliary facts\<close>

lemma contains_iff: "contains slice str = (str \<in> set slice)"
  by (induction slice) auto


lemma checkCache_eq:
  "checkCache cached now ups (allVideos, need) =
     (allVideos @ concat (map (\<lambda>up. videos (the (cached (UID up)))) (filter (isFresh cached now) ups)),
      need @ map UID (filter (\<lambda>up. \<not> isFresh cached now up) ups))"
  by (induction ups arbitrary: allVideos need) (auto simp: isFresh_def split: option.splits)

lemma collectVideos_total:
  "length errs = length responses \<Longrightarrow> length responses \<le> length uids
    \<Longrightarrow> \<exists>r. collectVideos uids responses errs = Some r"
  by (induction uids responses errs rule: collectVideos.induct) (auto split: option.splits)

lemma length_buildRequests: "length (buildRequests uids) \<le> length uids"
  by (induction uids) (auto split: option.splits)

lemma fetch_total: "\<exists>r. fetchBilibiliUserVideos wd uids = Some r"
proof (cases "poolErr wd")
  case (Some e)
  then show ?thesis by (simp add: fetchBilibiliUserVideos_def workerPoolDo_def)
next
  case None
  obtain r where "collectVideos uids
      (map (\<lambda>r. case task wd r of Inl e \<Rightarrow> zeroResponse | Inr resp \<Rightarrow> resp) (buildRequests uids))
      (map (\<lambda>r. case task wd r of Inl e \<Rightarrow> Some e | Inr resp \<Rightarrow> None) (buildRequests uids)) = Some r"
    using collectVideos_total[of _ "map _ (buildRequests uids)" uids] length_buildRequests[of uids]
    by (metis length_map)
  with None show ?thesis
    by (cases r) (simp add: fetchBilibiliUserVideos_def workerPoolDo_def)
qed

lemma refreshCache_videos:
  "snd (refreshCache dev ui now need newVideos ups (cached, allVideos)) =
     allVideos @ concat (map (\<lambda>up. filter (\<lambda>v. hasSuffix (AuthorUrl v) (''/'' @ UID up)) newVideos)
                          (filter (\<lambda>up. UID up \<in> set need) ups))"
  by (induction ups arbitrary: cached allVideos) (auto simp: contains_iff Let_def)

lemma refreshCache_frame:
  "uid \<notin> set need \<Longrightarrow>
   fst (refreshCache dev ui now need newVideos ups (cached, allVideos)) uid = cached uid"
  by (induction ups arbitrary: cached allVideos) (auto simp: contains_iff Let_def)

lemma needUpdate_eq:
  "needUpdate dev widget now =
     (if dev then map UID (UPs widget)
      else map UID (filter (\<lambda>up. \<not> isFresh (cachedVideos widget) now up) (UPs widget)))"
  by (simp add: needUpdate_def checkStale_def checkCache_eq)

lemma cacheDuration_zero_dev: "cacheDuration dev ui up = 0 \<Longrightarrow> dev"
  by (auto simp: cacheDuration_def Let_def Hour_def split: if_splits)

lemma finish_Error: "finish widget allVideos = Some w' \<Longrightarrow> Error w' = Error widget"
  by (auto simp: finish_def Let_def split: if_splits)

lemma finish_cached: "finish widget allVideos = Some w' \<Longrightarrow> cachedVideos w' = cachedVideos widget"
  by (auto simp: finish_def Let_def split: if_splits)

lemma finish_total: "0 \<le> Limit widget \<Longrightarrow> \<exists>w'. finish widget allVideos = Some w'"
  by (simp add: finish_def Let_def)

lemma update_total:
  assumes "0 \<le> Limit widget"
  shows "\<exists>w'. update dev wd now widget = Some w'"
proof -
  obtain allVideos need where cs: "checkStale dev widget now = (allVideos, need)"
    by (cases "checkStale dev widget now")
  obtain vs err where f: "fetchBilibiliUserVideos wd need = Some (vs, err)"
    using fetch_total[of wd need] by auto
  show ?thesis
  proof (cases "need = []")
    case True
    then show ?thesis using cs finish_total[OF assms] by (simp add: update_def)
  next
    case False
    show ?thesis
    proof (cases err)
      case None
      obtain c a where r: "refreshCache dev (UpdateInterval widget) now need vs (UPs widget)
                        (cachedVideos widget, allVideos) = (c, a)"
        by (cases "refreshCache dev (UpdateInterval widget) now need vs (UPs widget)
                        (cachedVideos widget, allVideos)")
      have "0 \<le> Limit (widget\<lparr>cachedVideos := c\<rparr>)" using assms by simp
      from finish_total[OF this, of a] show ?thesis
        using cs f None False r by (simp add: update_def)
    next
      case (Some e)
      then show ?thesis using cs f False by (simp add: update_def)
    qed
  qed
qed

lemma succeeded_simps:
  "succeeded None = False"
  "succeeded (Some (Inl e)) = False"
  "succeeded (Some (Inr resp)) = (Code resp = 0)"
  by (simp_all add: succeeded_def)

lemma itemsOf_simps:
  "itemsOf None = 0"
  "itemsOf (Some (Inl e)) = 0"
  "itemsOf (Some (Inr resp)) = (if Code resp = 0 then length (Vlist resp) else 0)"
  by (simp_all add: itemsOf_def)

lemma itemsOf_failed: "\<not> succeeded out \<Longrightarrow> itemsOf out = 0"
  by (auto simp: succeeded_def itemsOf_def split: option.splits sum.splits)

lemma collect_requests:
  "length reqs \<le> length uids \<Longrightarrow>
   \<exists>vs. collectVideos uids
          (map (\<lambda>r. case task wd r of Inl e \<Rightarrow> zeroResponse | Inr resp \<Rightarrow> resp) reqs)
          (map (\<lambda>r. case task wd r of Inl e \<Rightarrow> Some e | Inr resp \<Rightarrow> None) reqs)
        = Some (vs, length (filter (\<lambda>r. case task wd r of Inl e \<Rightarrow> True
                                          | Inr resp \<Rightarrow> Code resp \<noteq> 0) reqs))
      \<and> length vs = sum_list (map (\<lambda>r. itemsOf (Some (task wd r))) reqs)"
proof (induction reqs arbitrary: uids)
  case Nil
  then show ?case by simp
next
  case (Cons r reqs)
  then obtain uid uids' where u: "uids = uid # uids'" by (cases uids) auto
  with Cons.prems have "length reqs \<le> length uids'" by simp
  from Cons.IH[OF this] obtain vs where
    c: "collectVideos uids'
          (map (\<lambda>r. case task wd r of Inl e \<Rightarrow> zeroResponse | Inr resp \<Rightarrow> resp) reqs)
          (map (\<lambda>r. case task wd r of Inl e \<Rightarrow> Some e | Inr resp \<Rightarrow> None) reqs)
        = Some (vs, length (filter (\<lambda>r. case task wd r of Inl e \<Rightarrow> True
                                          | Inr resp \<Rightarrow> Code resp \<noteq> 0) reqs))"
    and l: "length vs = sum_list (map (\<lambda>r. itemsOf (Some (task wd r))) reqs)" by blast
  show ?case
  proof (cases "task wd r")
    case (Inl e)
    then show ?thesis using u c l by (simp add: itemsOf_simps)
  next
    case (Inr resp)
    then show ?thesis using u c l by (simp add: itemsOf_simps)
  qed
qed

lemma items_buildRequests:
  "sum_list (map (\<lambda>r. itemsOf (Some (task wd r))) (buildRequests uids))
     = sum_list (map itemsOf (outcomes wd uids))"
  by (induction uids)
     (auto simp: outcomes_def sourceOutcome_def itemsOf_simps split: option.splits)

lemma failedSources_eq:
  "failedSources wd uids = failedCount wd uids + length (filter (\<lambda>uid. \<not> requestBuilt uid) uids)"
proof (induction uids)
  case Nil
  then show ?case by (simp add: failedSources_def failedCount_def outcomes_def)
next
  case (Cons uid uids)
  then have ih: "length (filter (\<lambda>out. \<not> succeeded out) (map (sourceOutcome wd) uids))
      = length (filter (\<lambda>r. case task wd r of Inl e \<Rightarrow> True | Inr resp \<Rightarrow> Code resp \<noteq> 0)
                       (buildRequests uids))
        + length (filter (\<lambda>uid. \<not> requestBuilt uid) uids)"
    by (simp add: failedSources_def failedCount_def outcomes_def)
  show ?case
  proof (cases "newRequest ''GET'' (apiUrl uid)")
    case None
    then show ?thesis using ih
      by (simp add: failedSources_def failedCount_def outcomes_def sourceOutcome_def
            requestBuilt_def succeeded_simps)
  next
    case (Some request)
    then show ?thesis using ih
      by (cases "task wd (addHeaders uid request)")
         (simp_all add: failedSources_def failedCount_def outcomes_def sourceOutcome_def
            requestBuilt_def succeeded_simps)
  qed
qed

lemma failedCount_built:
  "list_all requestBuilt uids \<Longrightarrow> failedCount wd uids = failedSources wd uids"
  by (simp add: failedSources_eq list_all_iff filter_empty_conv)


lemma length_sortByNewest: "length (sortByNewest vs) = length vs"
  by (simp add: sortByNewest_def)

lemma fetch_classified:
  "\<exists>vs. fetchBilibiliUserVideos wd uids =
      Some (vs,
        if obtainedItems wd uids = 0
        then Some (case poolErr wd of Some e \<Rightarrow> ErrNoContentBecause e | None \<Rightarrow> ErrNoContent)
        else if failedCount wd uids > 0 then Some (ErrPartialContent (failedCount wd uids))
        else None)
    \<and> length vs = obtainedItems wd uids"
proof (cases "poolErr wd")
  case (Some e)
  then show ?thesis
    by (simp add: fetchBilibiliUserVideos_def workerPoolDo_def obtainedItems_def)
next
  case None
  from collect_requests[OF length_buildRequests, of uids wd] obtain vs where
    c: "collectVideos uids
          (map (\<lambda>r. case task wd r of Inl e \<Rightarrow> zeroResponse | Inr resp \<Rightarrow> resp) (buildRequests uids))
          (map (\<lambda>r. case task wd r of Inl e \<Rightarrow> Some e | Inr resp \<Rightarrow> None) (buildRequests uids))
        = Some (vs, failedCount wd uids)"
    and l: "length vs = obtainedItems wd uids"
    using None by (auto simp: failedCount_def obtainedItems_def items_buildRequests)
  show ?thesis
  proof (cases "obtainedItems wd uids = 0")
    case True
    then show ?thesis
      using None c l by (simp add: fetchBilibiliUserVideos_def workerPoolDo_def)
  next
    case False
    with l have "vs \<noteq> []" by auto
    then have "fetchBilibiliUserVideos wd uids =
      Some (sortByNewest vs,
        if failedCount wd uids > 0 then Some (ErrPartialContent (failedCount wd uids))
        else None)"
      using None c l by (simp add: fetchBilibiliUserVideos_def workerPoolDo_def)
    then show ?thesis using False l by (simp add: length_sortByNewest)
  qed
qed

text \<open>
  When every request is built, the fetcher's error follows the requested sources: the
  no-content error when no item was obtained, else the partial-content error with the
  number of failed sources when some failed, else \<^verbatim>\<open>nil\<close>.
\<close>

lemma fetch_classified_built:
  assumes "list_all requestBuilt uids"
  shows "\<exists>vs. fetchBilibiliUserVideos wd uids =
      Some (vs,
        if obtainedItems wd uids = 0
        then Some (case poolErr wd of Some e \<Rightarrow> ErrNoContentBecause e | None \<Rightarrow> ErrNoContent)
        else if failedSources wd uids > 0 then Some (ErrPartialContent (failedSources wd uids))
        else None)
    \<and> length vs = obtainedItems wd uids"
proof -
  have e: "failedCount wd uids = failedSources wd uids"
    using assms by (rule failedCount_built)
  show ?thesis using fetch_classified[of wd uids] unfolding e .
qed

lemma all_failed_no_items:
  assumes "list_all (\<lambda>out. \<not> succeeded out) (outcomes wd uids)"
  shows "obtainedItems wd uids = 0"
proof -
  have "\<forall>out\<in>set (outcomes wd uids). itemsOf out = 0"
    using assms itemsOf_failed by (auto simp: list_all_iff)
  then have "sum_list (map itemsOf (outcomes wd uids)) = 0" by simp
  then show ?thesis by (simp add: obtainedItems_def split: option.splits)
qed

lemma update_fetch_error:
  assumes "needUpdate dev widget now \<noteq> []"
    and "fetchBilibiliUserVideos wd (needUpdate dev widget now) = Some (vs, Some err)"
  shows "update dev wd now widget = Some (widget\<lparr>Error := Some (FetchFailed err)\<rparr>)"
proof -
  obtain allVideos need where cs: "checkStale dev widget now = (allVideos, need)"
    by (cases "checkStale dev widget now")
  then have "needUpdate dev widget now = need" by (simp add: needUpdate_def)
  with assms cs show ?thesis by (simp add: update_def)
qed


lemma mset_sortByNewest: "mset (sortByNewest vs) = mset vs"
  by (simp add: sortByNewest_def)


lemma finish_Videos:
  assumes "finish widget allVideos = Some w'"
  shows "Videos w' = take (nat (Limit widget)) (sortByNewest allVideos)"
proof (cases "int (length (sortByNewest allVideos)) > Limit widget")
  case True
  then show ?thesis using assms by (auto simp: finish_def Let_def split: if_splits)
next
  case False
  then have "length (sortByNewest allVideos) \<le> nat (Limit widget)" by linarith
  then show ?thesis using assms False by (auto simp: finish_def Let_def split: if_splits)
qed

lemma checkStale_eq:
  "checkStale dev widget now =
    (if dev then ([], map UID (UPs widget))
     else (concat (map (\<lambda>up. videos (the (cachedVideos widget (UID up))))
                     (filter (isFresh (cachedVideos widget) now) (UPs widget))),
           map UID (filter (\<lambda>up. \<not> isFresh (cachedVideos widget) now up) (UPs widget))))"
  by (simp add: checkStale_def checkCache_eq)

lemma update_success:
  assumes "fetchedVideos dev wd now widget = Some fetched"
  shows "\<exists>cached. update dev wd now widget
            = finish (widget\<lparr>cachedVideos := cached\<rparr>) (mergeAll dev widget now fetched)
          \<and> (\<forall>uid. uid \<notin> set (needUpdate dev widget now) \<longrightarrow> cached uid = cachedVideos widget uid)"
proof -
  obtain allVideos need where cs: "checkStale dev widget now = (allVideos, need)"
    by (cases "checkStale dev widget now")
  then have n: "needUpdate dev widget now = need" by (simp add: needUpdate_def)
  show ?thesis
  proof (cases "need = []")
    case True
    then have "update dev wd now widget
        = finish (widget\<lparr>cachedVideos := cachedVideos widget\<rparr>) (mergeAll dev widget now fetched)"
      using cs by (simp add: update_def mergeAll_def)
    then show ?thesis by blast
  next
    case False
    then have f: "fetchBilibiliUserVideos wd need = Some (fetched, None)"
      using assms n by (auto simp: fetchedVideos_def split: option.splits prod.splits)
    let ?r = "refreshCache dev (UpdateInterval widget) now need fetched (UPs widget)
                (cachedVideos widget, allVideos)"
    have "update dev wd now widget = finish (widget\<lparr>cachedVideos := fst ?r\<rparr>) (snd ?r)"
      using cs f False by (simp add: update_def split: prod.splits)
    moreover have "mergeAll dev widget now fetched = snd ?r"
      using cs False by (simp add: mergeAll_def)
    moreover have "\<forall>uid. uid \<notin> set (needUpdate dev widget now) \<longrightarrow> fst ?r uid = cachedVideos widget uid"
      using n refreshCache_frame by simp
    ultimately show ?thesis by auto
  qed
qed

lemma mset_concat_member:
  "x \<in> set xs \<Longrightarrow> mset (f x) \<subseteq># mset (concat (map f xs))"
proof (induction xs)
  case Nil
  then show ?case by simp
next
  case (Cons y ys)
  show ?case
  proof (cases "x = y")
    case True
    then show ?thesis by simp
  next
    case False
    with Cons have "mset (f x) \<subseteq># mset (concat (map f ys))" by simp
    then show ?thesis by (simp add: subset_mset.add_increasing)
  qed
qed

lemma fresh_of_not_stale:
  assumes "up \<in> set (UPs widget)" and "UID up \<notin> set (needUpdate dev widget now)"
  shows "\<not> dev \<and> isFresh (cachedVideos widget) now up"
proof -
  have d: "\<not> dev" using assms by (auto simp: needUpdate_eq)
  then have "UID up \<notin> UID ` set (filter (\<lambda>up. \<not> isFresh (cachedVideos widget) now up) (UPs widget))"
    using assms(2) by (simp add: needUpdate_eq)
  then have "isFresh (cachedVideos widget) now up" using assms(1) by auto
  with d show ?thesis by simp
qed

lemma mergeAll_prefix:
  "\<exists>rest. mergeAll dev widget now newVideos = fst (checkStale dev widget now) @ rest"
proof -
  obtain allVideos need where cs: "checkStale dev widget now = (allVideos, need)"
    by (cases "checkStale dev widget now")
  show ?thesis using cs by (simp add: mergeAll_def refreshCache_videos)
qed








lemma refreshCache_other:
  "uid \<notin> UID ` set ups \<Longrightarrow>
   fst (refreshCache dev ui now need newVideos ups (cached, allVideos)) uid = cached uid"
  by (induction ups arbitrary: cached allVideos) (auto simp: Let_def)

lemma refreshCache_entry:
  "distinct (map UID ups) \<Longrightarrow> up \<in> set ups \<Longrightarrow> UID up \<in> set need \<Longrightarrow>
   fst (refreshCache dev ui now need newVideos ups (cached, allVideos)) (UID up)
     = Some \<lparr>videos = filter (\<lambda>v. hasSuffix (AuthorUrl v) (''/'' @ UID up)) newVideos,
              expireAt = now + cacheDuration dev ui up\<rparr>"
proof (induction ups arbitrary: cached allVideos)
  case Nil
  then show ?case by simp
next
  case (Cons a ups)
  show ?case
  proof (cases "up = a")
    case True
    have "UID a \<notin> UID ` set ups" using Cons.prems(1) by simp
    from refreshCache_other[OF this] show ?thesis
      using True Cons.prems(3) by (simp add: contains_iff Let_def)
  next
    case False
    then have "up \<in> set ups" using Cons.prems(2) by simp
    moreover have "distinct (map UID ups)" using Cons.prems(1) by simp
    ultimately show ?thesis using Cons.IH Cons.prems(3) by (simp add: Let_def)
  qed
qed

lemma update_refreshed_entry:
  assumes d: "distinct (map UID (UPs widget))"
    and m: "up \<in> set (UPs widget)"
    and st: "UID up \<in> set (needUpdate dev widget now)"
    and fv: "fetchedVideos dev wd now widget = Some fetched"
    and u: "update dev wd now widget = Some widget'"
  shows "cachedVideos widget' (UID up)
     = Some \<lparr>videos = filter (\<lambda>v. hasSuffix (AuthorUrl v) (''/'' @ UID up)) fetched,
              expireAt = now + cacheDuration dev (UpdateInterval widget) up\<rparr>"
proof -
  obtain allVideos need where cs: "checkStale dev widget now = (allVideos, need)"
    by (cases "checkStale dev widget now")
  then have n: "needUpdate dev widget now = need" by (simp add: needUpdate_def)
  with st have ne: "need \<noteq> []" by auto
  then have f: "fetchBilibiliUserVideos wd need = Some (fetched, None)"
    using fv n by (auto simp: fetchedVideos_def split: option.splits prod.splits)
  let ?r = "refreshCache dev (UpdateInterval widget) now need fetched (UPs widget)
                (cachedVideos widget, allVideos)"
  have "finish (widget\<lparr>cachedVideos := fst ?r\<rparr>) (snd ?r) = Some widget'"
    using u cs f ne by (simp add: update_def split: prod.splits)
  from finish_cached[OF this] have "cachedVideos widget' = fst ?r" by simp
  then show ?thesis using refreshCache_entry[OF d m] st n by simp
qed

lemma buildRequests_all:
  "list_all (\<lambda>uid. urlParses (apiUrl uid)) uids
    \<Longrightarrow> map reqUrl (buildRequests uids) = map apiUrl uids"
  by (induction uids) (auto simp: newRequest_def addHeaders_def headerAdd_def)

lemma update_Error_cases:
  assumes u: "update dev wd now widget = Some widget'"
  shows "Error widget' = Error widget
            \<or> (needUpdate dev widget now \<noteq> []
               \<and> (\<exists>vs err. fetchBilibiliUserVideos wd (needUpdate dev widget now) = Some (vs, Some err)
                      \<and> Error widget' = Some (FetchFailed err)))"
proof -
  obtain allVideos need where cs: "checkStale dev widget now = (allVideos, need)"
    by (cases "checkStale dev widget now")
  then have n: "needUpdate dev widget now = need" by (simp add: needUpdate_def)
  show ?thesis
  proof (cases "need = []")
    case True
    then show ?thesis using u cs finish_Error by (auto simp: update_def)
  next
    case False
    obtain vs err where f: "fetchBilibiliUserVideos wd need = Some (vs, err)"
      using fetch_total[of wd need] by auto
    show ?thesis
    proof (cases err)
      case None
      obtain c a where r: "refreshCache dev (UpdateInterval widget) now need vs (UPs widget)
                        (cachedVideos widget, allVideos) = (c, a)"
        by (cases "refreshCache dev (UpdateInterval widget) now need vs (UPs widget)
                        (cachedVideos widget, allVideos)")
      have "finish (widget\<lparr>cachedVideos := c\<rparr>) a = Some widget'"
        using u cs f None False r by (simp add: update_def)
      from finish_Error[OF this] show ?thesis by simp
    next
      case (Some e)
      then have "widget' = widget\<lparr>Error := Some (FetchFailed e)\<rparr>"
        using u cs f False by (simp add: update_def)
      then show ?thesis using f Some n False by simp
    qed
  qed
qed

lemma update_all_failed:
  assumes n: "needUpdate dev widget now \<noteq> []"
    and a: "list_all (\<lambda>out. \<not> succeeded out) (outcomes wd (needUpdate dev widget now))"
  shows "update dev wd now widget
           = Some (widget\<lparr>Error := Some (FetchFailed
               (case poolErr wd of Some e \<Rightarrow> ErrNoContentBecause e | None \<Rightarrow> ErrNoContent))\<rparr>)"
proof -
  let ?need = "needUpdate dev widget now"
  let ?err = "case poolErr wd of Some e \<Rightarrow> ErrNoContentBecause e | None \<Rightarrow> ErrNoContent"
  have z: "obtainedItems wd ?need = 0" using all_failed_no_items[OF a] .
  obtain vs' where "fetchBilibiliUserVideos wd ?need = Some (vs', Some ?err)"
    using fetch_classified[of wd ?need] z by auto
  from update_fetch_error[OF n this] show ?thesis .
qed





section \<open>A pass in which some sources fail\<close>

text \<open>
  C1, evaluated on the code. Two sources are stale; the request for the first fails, the
  request for the second yields one video. The fetcher returns that video together with
  the partial-content error carrying the count 1, and \<^verbatim>\<open>update\<close> stops at line 209:
  the only field that changes is \<^verbatim>\<open>Error\<close>. The successful source gets no cache
  entry and its video does not reach \<^verbatim>\<open>Videos\<close>.
\<close>

theorem partial_failure_aborts_pass:
  "needUpdate False exTwo 50 = [''1'', ''2'']
   \<and> length (outcomes worldOnly2 [''1'', ''2'']) = 2
   \<and> failedSources worldOnly2 [''1'', ''2''] = 1
   \<and> fetchBilibiliUserVideos worldOnly2 [''1'', ''2'']
       = Some ([mkVideo ''2'' (exItem ''BV2'' 7)], Some (ErrPartialContent 1))
   \<and> update False worldOnly2 50 exTwo
       = Some (exTwo\<lparr>Error := Some (FetchFailed (ErrPartialContent 1))\<rparr>)
   \<and> cachedVideos exTwo ''2'' = None \<and> Videos exTwo = []"
proof -
  have n: "needUpdate False exTwo 50 = [''1'', ''2'']" by code_simp
  have o: "length (outcomes worldOnly2 [''1'', ''2'']) = 2" by code_simp
  have k: "failedSources worldOnly2 [''1'', ''2''] = 1" by code_simp
  have f: "fetchBilibiliUserVideos worldOnly2 [''1'', ''2'']
       = Some ([mkVideo ''2'' (exItem ''BV2'' 7)], Some (ErrPartialContent 1))" by code_simp
  have u: "update False worldOnly2 50 exTwo
       = Some (exTwo\<lparr>Error := Some (FetchFailed (ErrPartialContent 1))\<rparr>)"
    by (rule update_fetch_error) (simp_all add: n f)
  have c: "cachedVideos exTwo ''2'' = None \<and> Videos exTwo = []"
    by (simp add: exTwo_def exWidget_def)
  show ?thesis using n o k f u c by simp
qed

section \<open>Which sources are stale\<close>

text \<open>
  C2, as the code has it. A configured source is in the stale list exactly when the
  development mode is on, or the cache has no entry for it, or \<open>now\<close> is strictly after
  the entry's expiry (\<^verbatim>\<open>now.After(cache.expireAt)\<close>): at the instant of expiry itself
  the entry is still used. An effective TTL of zero arises in development mode only,
  where every configured source is stale at every check, so such a source is stale at
  the next check whatever the cache holds.
\<close>

theorem stale_iff_strictly_expired:
  assumes "up \<in> set (UPs widget)"
  shows "(UID up \<in> set (needUpdate dev widget now)) =
           (dev \<or> (case cachedVideos widget (UID up) of
                     None \<Rightarrow> True
                   | Some cache \<Rightarrow> expireAt cache < now))
         \<and> (cacheDuration dev ui up = 0 \<longrightarrow> UID up \<in> set (needUpdate dev widget now))"
proof -
  let ?stale = "\<lambda>up. \<not> isFresh (cachedVideos widget) now up"
  have "(UID up \<in> set (map UID (filter ?stale (UPs widget)))) = ?stale up"
  proof
    assume "UID up \<in> set (map UID (filter ?stale (UPs widget)))"
    then obtain up' where "UID up' = UID up" "?stale up'" by auto
    then show "?stale up" by (simp add: isFresh_def)
  next
    assume "?stale up"
    with assms have "up \<in> set (filter ?stale (UPs widget))" by simp
    then show "UID up \<in> set (map UID (filter ?stale (UPs widget)))" by (metis imageI set_map)
  qed
  then have iff: "(UID up \<in> set (needUpdate dev widget now)) =
           (dev \<or> (case cachedVideos widget (UID up) of
                     None \<Rightarrow> True
                   | Some cache \<Rightarrow> expireAt cache < now))"
    using assms by (auto simp: needUpdate_eq isFresh_def split: option.splits)
  show ?thesis
    using iff cacheDuration_zero_dev by blast
qed

theorem stale_iff_strictly_expired_witness:
  "exUP ''1'' \<in> set (UPs exCached)
   \<and> UID (exUP ''1'') \<in> set (needUpdate False exCached 101)
   \<and> UID (exUP ''1'') \<notin> set (needUpdate False exCached 100)
   \<and> cacheDuration True 0 (exUP ''1'') = 0
   \<and> UID (exUP ''1'') \<in> set (needUpdate True exCached 100)"
proof -
  have m: "exUP ''1'' \<in> set (UPs exCached)"
    by (simp add: exCached_def exWidget_def)
  have c: "cachedVideos exCached (UID (exUP ''1'')) = Some \<lparr>videos = [], expireAt = 100\<rparr>"
    by (simp add: exCached_def exWidget_def exUP_def)
  have z: "cacheDuration True 0 (exUP ''1'') = 0"
    by (simp add: cacheDuration_def)
  show ?thesis
    using m z stale_iff_strictly_expired [OF m, of False 101 0]
      stale_iff_strictly_expired [OF m, of False 100 0]
      stale_iff_strictly_expired [OF m, of True 100 0]
    by (simp add: c)
qed

text \<open>
  The claim as worded (stale when \<open>now\<close> is at or after the expiry) fails at the instant
  of expiry: the entry expires at 100, the check is made at 100, and the source is not
  in the stale list.
\<close>

theorem stale_at_expiry_counterexample:
  "\<not> ((UID (exUP ''1'') \<in> set (needUpdate False exCached 100))
       = (False \<or> (case cachedVideos exCached (UID (exUP ''1'')) of
                       None \<Rightarrow> True
                     | Some cache \<Rightarrow> expireAt cache \<le> 100)))"
  by (simp add: needUpdate_def checkStale_def exCached_def exWidget_def exUP_def)

section \<open>Requests and the sources they are attributed to\<close>

text \<open>
  C3, evaluated on the code. The first of two UIDs ends in a line feed, so no request
  can be built for it and the loop of lines 352-381 skips it. One request is left, the
  one for UID 2; its response is read at index 0 and attributed to \<^verbatim>\<open>uids[0]\<close>, the
  first UID: the video of source 2 carries the author URL of the first source, no
  failure is counted, and there is one outcome for two sources. Asked for UID 2 alone,
  the same world attributes the video to source 2.
\<close>

theorem skipped_request_shifts_attribution:
  "map reqUrl (buildRequests [[CHR ''1'', CHR 0x0A], ''2'']) = [apiUrl ''2'']
   \<and> fetchBilibiliUserVideos worldOnly2 [[CHR ''1'', CHR 0x0A], ''2'']
       = Some ([mkVideo [CHR ''1'', CHR 0x0A] (exItem ''BV2'' 7)], None)
   \<and> fetchBilibiliUserVideos worldOnly2 [''2'']
       = Some ([mkVideo ''2'' (exItem ''BV2'' 7)], None)"
  by code_simp

section \<open>The error the fetcher returns\<close>

text \<open>
  C4, evaluated on the code. A source whose request cannot be built (line 365) is
  skipped without being counted in \<^verbatim>\<open>failed\<close>. Of the two sources asked for, the first
  (its UID ends in a line feed) is never fetched and the second yields one video: one
  source has failed, and the fetcher returns \<^verbatim>\<open>nil\<close>. Of three sources, the first is
  never fetched, the second yields one video and the third fails: two sources have
  failed, and the partial-content error carries the count 1.
\<close>

theorem skipped_source_not_counted:
  "length (outcomes worldOnly2 [[CHR ''1'', CHR 0x0A], ''2'']) = 2
   \<and> failedSources worldOnly2 [[CHR ''1'', CHR 0x0A], ''2''] = 1
   \<and> map_option snd (fetchBilibiliUserVideos worldOnly2 [[CHR ''1'', CHR 0x0A], ''2''])
       = Some None
   \<and> length (outcomes worldOnly2 [[CHR ''1'', CHR 0x0A], ''2'', ''3'']) = 3
   \<and> failedSources worldOnly2 [[CHR ''1'', CHR 0x0A], ''2'', ''3''] = 2
   \<and> map_option snd (fetchBilibiliUserVideos worldOnly2 [[CHR ''1'', CHR 0x0A], ''2'', ''3''])
       = Some (Some (ErrPartialContent 1))"
  by code_simp

section \<open>The merged list: sorted, then cut to the limit\<close>




section \<open>The effective cache duration\<close>

text \<open>
  C6. The cache duration of a refreshed source is zero in development mode; otherwise
  it is the source's own \<^verbatim>\<open>update-every\<close> when that is positive, otherwise the widget's
  when that is positive, otherwise two hours (7200 seconds, in nanoseconds). It is what
  a completed pass adds to \<open>now\<close> for the expiry of the entry of each refreshed source
  (the configured UIDs being distinct, so that one configured entry writes it).
\<close>

theorem cacheDuration_resolution:
  "cacheDuration dev updateInterval up =
     (if dev then 0
      else if 0 < Cache up then Cache up
      else if 0 < updateInterval then updateInterval
      else 2 * Hour)
   \<and> 2 * Hour = 7200 * 1000000000
   \<and> (distinct (map UID (UPs widget)) \<and> up \<in> set (UPs widget)
        \<and> UID up \<in> set (needUpdate dev widget now)
        \<and> fetchedVideos dev wd now widget = Some fetched
        \<and> update dev wd now widget = Some widget'
      \<longrightarrow> map_option expireAt (cachedVideos widget' (UID up))
            = Some (now + cacheDuration dev (UpdateInterval widget) up))"
  using update_refreshed_entry[of widget up dev now wd fetched widget']
  by (simp add: cacheDuration_def Let_def Hour_def)

theorem cacheDuration_resolution_witness:
  "distinct (map UID (UPs exTTL))
   \<and> \<lparr>UID = ''2'', Cache = 5\<rparr> \<in> set (UPs exTTL) \<and> exUP ''3'' \<in> set (UPs exTTL)
   \<and> needUpdate False exTTL 50 = [''2'', ''3'']
   \<and> map_option (length \<circ> Videos) (update False worldAll 50 exTTL) = Some 3
   \<and> map_option (\<lambda>w. map_option expireAt (cachedVideos w ''2'')) (update False worldAll 50 exTTL)
       = Some (Some 55)
   \<and> map_option (\<lambda>w. map_option expireAt (cachedVideos w ''3'')) (update False worldAll 50 exTTL)
       = Some (Some 7200000000050)"
proof -
  have d: "distinct (map UID (UPs exTTL))" by code_simp
  have m2: "\<lparr>UID = ''2'', Cache = 5\<rparr> \<in> set (UPs exTTL)" by (simp add: exTTL_def exWidget_def)
  have m3: "exUP ''3'' \<in> set (UPs exTTL)" by (simp add: exTTL_def exWidget_def)
  have n: "needUpdate False exTTL 50 = [''2'', ''3'']" by code_simp
  have l: "map_option (length \<circ> Videos) (update False worldAll 50 exTTL) = Some 3" by code_simp
  then obtain w' where u: "update False worldAll 50 exTTL = Some w'"
    by (cases "update False worldAll 50 exTTL") auto
  have "map_option length (fetchedVideos False worldAll 50 exTTL) = Some 3" by code_simp
  then obtain fetched where f: "fetchedVideos False worldAll 50 exTTL = Some fetched"
    by (cases "fetchedVideos False worldAll 50 exTTL") auto
  have i: "UpdateInterval exTTL = 0" by (simp add: exTTL_def exWidget_def)
  from cacheDuration_resolution [of False 0 "\<lparr>UID = ''2'', Cache = 5\<rparr>" exTTL 50 worldAll fetched w']
    d m2 n f u i
  have e2: "map_option expireAt (cachedVideos w' ''2'') = Some 55" by auto
  from cacheDuration_resolution [of False 0 "exUP ''3''" exTTL 50 worldAll fetched w']
    d m3 n f u i
  have e3: "map_option expireAt (cachedVideos w' ''3'') = Some 7200000000050"
    by (auto simp: exUP_def Hour_def)
  show ?thesis using d m2 m3 n l u e2 e3 by simp
qed

section \<open>Sources that are not stale\<close>

text \<open>
  C7, as the code has it. A configured source that is not in the stale list has a cache
  entry; whatever the pass does, that entry (videos and expiry) is the same after the
  pass; all its cached videos are in the merge that the pass sorts and cuts, whatever is
  fetched; and when the pass is not stopped by a fetch error, \<^verbatim>\<open>Videos\<close> is that merge
  sorted and cut to the limit, so the cached videos are all in \<^verbatim>\<open>Videos\<close> when the
  merge has no more videos than the limit allows.
\<close>

theorem fresh_source_untouched:
  assumes "up \<in> set (UPs widget)" and "UID up \<notin> set (needUpdate dev widget now)"
  shows "\<exists>cache. cachedVideos widget (UID up) = Some cache
     \<and> (\<forall>widget'. update dev wd now widget = Some widget'
            \<longrightarrow> cachedVideos widget' (UID up) = Some cache)
     \<and> (\<forall>newVideos. mset (videos cache) \<subseteq># mset (mergeAll dev widget now newVideos))
     \<and> (\<forall>fetched widget'.
            fetchedVideos dev wd now widget = Some fetched
            \<and> update dev wd now widget = Some widget'
          \<longrightarrow> Videos widget' = take (nat (Limit widget)) (sortByNewest (mergeAll dev widget now fetched))
              \<and> (int (length (mergeAll dev widget now fetched)) \<le> Limit widget
                   \<longrightarrow> mset (videos cache) \<subseteq># mset (Videos widget')))"
proof -
  from fresh_of_not_stale[OF assms] have nd: "\<not> dev"
    and fr: "isFresh (cachedVideos widget) now up" by simp_all
  from fr obtain cache where c: "cachedVideos widget (UID up) = Some cache"
    by (auto simp: isFresh_def split: option.splits)
  have frame: "cachedVideos widget' (UID up) = Some cache"
    if u: "update dev wd now widget = Some widget'" for widget'
  proof -
    obtain allVideos need where cs: "checkStale dev widget now = (allVideos, need)"
      by (cases "checkStale dev widget now")
    then have n: "needUpdate dev widget now = need" by (simp add: needUpdate_def)
    obtain vs err where f: "fetchBilibiliUserVideos wd need = Some (vs, err)"
      using fetch_total[of wd need] by auto
    show ?thesis
    proof (cases "need = []")
      case True
      then have "finish widget allVideos = Some widget'" using u cs by (simp add: update_def)
      from finish_cached[OF this] c show ?thesis by simp
    next
      case False
      show ?thesis
      proof (cases err)
        case None
        then have "fetchedVideos dev wd now widget = Some vs"
          using f n False by (simp add: fetchedVideos_def)
        from update_success[OF this] u obtain cached where
          fin: "finish (widget\<lparr>cachedVideos := cached\<rparr>) (mergeAll dev widget now vs) = Some widget'"
          and fr: "\<forall>uid. uid \<notin> set (needUpdate dev widget now) \<longrightarrow> cached uid = cachedVideos widget uid"
          by auto
        from finish_cached[OF fin] have "cachedVideos widget' = cached" by simp
        then show ?thesis using fr assms(2) c by simp
      next
        case (Some e)
        then have "widget' = widget\<lparr>Error := Some (FetchFailed e)\<rparr>"
          using u cs f False by (simp add: update_def)
        then show ?thesis using c by simp
      qed
    qed
  qed
  have inc: "mset (videos cache) \<subseteq># mset (mergeAll dev widget now newVideos)" for newVideos
  proof -
    have "up \<in> set (filter (isFresh (cachedVideos widget) now) (UPs widget))"
      using assms(1) fr by simp
    from mset_concat_member[OF this, of "\<lambda>up. videos (the (cachedVideos widget (UID up)))"]
    have "mset (videos cache) \<subseteq># mset (fst (checkStale dev widget now))"
      using nd c by (simp add: checkStale_eq)
    moreover obtain rest where "mergeAll dev widget now newVideos = fst (checkStale dev widget now) @ rest"
      using mergeAll_prefix by blast
    ultimately show ?thesis by (simp add: subset_mset.add_increasing2)
  qed
  have out: "Videos widget' = take (nat (Limit widget)) (sortByNewest (mergeAll dev widget now fetched))
              \<and> (int (length (mergeAll dev widget now fetched)) \<le> Limit widget
                   \<longrightarrow> mset (videos cache) \<subseteq># mset (Videos widget'))"
    if fv: "fetchedVideos dev wd now widget = Some fetched"
      and u: "update dev wd now widget = Some widget'" for fetched widget'
  proof -
    from update_success[OF fv] u obtain cached where
      fin: "finish (widget\<lparr>cachedVideos := cached\<rparr>) (mergeAll dev widget now fetched) = Some widget'"
      by auto
    from finish_Videos[OF fin]
    have v: "Videos widget' = take (nat (Limit widget)) (sortByNewest (mergeAll dev widget now fetched))"
      by simp
    have "mset (videos cache) \<subseteq># mset (Videos widget')"
      if "int (length (mergeAll dev widget now fetched)) \<le> Limit widget"
    proof -
      from that have "length (sortByNewest (mergeAll dev widget now fetched)) \<le> nat (Limit widget)"
        by (simp add: sortByNewest_def)
      then have "Videos widget' = sortByNewest (mergeAll dev widget now fetched)"
        using v by simp
      then show ?thesis using inc[of fetched] by (simp add: mset_sortByNewest)
    qed
    with v show ?thesis by simp
  qed
  show ?thesis using c frame inc out by blast
qed

theorem fresh_source_untouched_witness:
  "exUP ''1'' \<in> set (UPs exMixed)
   \<and> UID (exUP ''1'') \<notin> set (needUpdate False exMixed 50)
   \<and> map_option (\<lambda>w. cachedVideos w ''1'') (update False worldOnly2 50 exMixed)
       = Some (Some \<lparr>videos = [exVideo 2, exVideo 1], expireAt = 100\<rparr>)
   \<and> map_option (map TimePosted \<circ> Videos) (update False worldOnly2 50 exMixed)
       = Some (map unixTime [7, 2, 1])"
proof -
  have h1: "exUP ''1'' \<in> set (UPs exMixed)" by (simp add: exMixed_def exWidget_def)
  have h2: "UID (exUP ''1'') \<notin> set (needUpdate False exMixed 50)" by code_simp
  have c: "cachedVideos exMixed (UID (exUP ''1''))
             = Some \<lparr>videos = [exVideo 2, exVideo 1], expireAt = 100\<rparr>"
    by (simp add: exMixed_def exWidget_def exUP_def)
  have t: "map_option (map TimePosted \<circ> Videos) (update False worldOnly2 50 exMixed)
       = Some (map unixTime [7, 2, 1])"
    by code_simp
  then obtain w' where u: "update False worldOnly2 50 exMixed = Some w'"
    by (cases "update False worldOnly2 50 exMixed") auto
  from fresh_source_untouched [OF h1 h2, of worldOnly2] c u
  have "cachedVideos w' (UID (exUP ''1'')) = Some \<lparr>videos = [exVideo 2, exVideo 1], expireAt = 100\<rparr>"
    by auto
  then show ?thesis using h1 h2 t u by (simp add: exUP_def)
qed

text \<open>
  The claim as worded (the cached videos appear in the merged output) fails when the
  limit cuts them off: the source is fresh with two cached videos, the limit is 1, and
  the older video is not in \<^verbatim>\<open>Videos\<close> after the pass.
\<close>

theorem truncation_drops_cached_counterexample:
  "UID (exUP ''1'') \<notin> set (needUpdate False exTrunc 50)
   \<and> map_option videos (cachedVideos exTrunc (UID (exUP ''1''))) = Some [exVideo 2, exVideo 1]
   \<and> map_option Videos (update False worldOnly2 50 exTrunc) = Some [exVideo 2]
   \<and> exVideo 1 \<notin> set [exVideo 2]"
  by code_simp

section \<open>The spacing of requests\<close>



section \<open>initialize: the defaults\<close>

text \<open>
  C9. After \<^verbatim>\<open>initialize\<close> returns (it always returns \<^verbatim>\<open>nil\<close>), the limit is
  positive: a configured limit of zero or less has become 25 and any other is kept;
  \<^verbatim>\<open>CollapseAfterRows\<close> has become 4 and \<^verbatim>\<open>CollapseAfter\<close> 7 whenever the configured
  value was 0 or below -1, and is kept otherwise; and the cache map is empty.
\<close>

theorem initialize_defaults:
  "\<exists>w. initialize widget = Inr w
     \<and> 0 < Limit w
     \<and> Limit w = (if Limit widget \<le> 0 then 25 else Limit widget)
     \<and> CollapseAfterRows w =
         (if CollapseAfterRows widget = 0 \<or> CollapseAfterRows widget < -1 then 4
          else CollapseAfterRows widget)
     \<and> CollapseAfter w =
         (if CollapseAfter widget = 0 \<or> CollapseAfter widget < -1 then 7
          else CollapseAfter widget)
     \<and> cachedVideos w = Map.empty"
  by (simp add: initialize_def Let_def)


section \<open>The Error field\<close>

text \<open>
  C10. A pass of \<^verbatim>\<open>update\<close> never clears the widget's \<^verbatim>\<open>Error\<close>: the field after
  the pass is either the field before it, or (when something was stale) the wrapped
  error of a fetch that failed in this pass. So an error set by an earlier pass is still there after any later pass,
  successful or not. (The pass returns whenever the limit is not negative.) Nor does
  \<^verbatim>\<open>Render\<close>, which calls \<^verbatim>\<open>update\<close> and only ever assigns an error of its own.
\<close>

theorem update_keeps_Error:
  "(0 \<le> Limit widget \<longrightarrow> update dev wd now widget \<noteq> None)
   \<and> (\<forall>widget'. update dev wd now widget = Some widget' \<longrightarrow>
         (Error widget \<noteq> None \<longrightarrow> Error widget' \<noteq> None)
         \<and> (Error widget' = Error widget
            \<or> (needUpdate dev widget now \<noteq> []
               \<and> (\<exists>vs err. fetchBilibiliUserVideos wd (needUpdate dev widget now) = Some (vs, Some err)
                      \<and> Error widget' = Some (FetchFailed err)))))
   \<and> (\<forall>widget'. Render dev wd now widget = Some widget' \<longrightarrow>
         (Error widget \<noteq> None \<longrightarrow> Error widget' \<noteq> None))"
proof -
  have tot: "0 \<le> Limit widget \<longrightarrow> update dev wd now widget \<noteq> None"
    using update_total[of widget dev wd now] by auto
  have upd: "Error widget' \<noteq> None"
    if "update dev wd now widget = Some widget'" "Error widget \<noteq> None" for widget'
    using update_Error_cases[OF that(1)] that(2) by auto
  have ren: "Error widget' \<noteq> None"
    if "Render dev wd now widget = Some widget'" "Error widget \<noteq> None" for widget'
    using that upd by (auto simp: Render_def split: if_splits option.splits)
  show ?thesis using tot upd ren update_Error_cases[of dev wd now widget] by blast
qed

theorem update_keeps_Error_witness:
  "0 \<le> Limit exFailed
   \<and> Error exFailed = Some (FetchFailed ErrNoContent)
   \<and> map_option (map TimePosted \<circ> Videos) (update False worldOnly2 50 exFailed)
       = Some (map unixTime [7])
   \<and> map_option Error (update False worldOnly2 50 exFailed) = Some (Some (FetchFailed ErrNoContent))"
proof -
  have l: "0 \<le> Limit exFailed"
    by (simp add: exFailed_def exWidget_def)
  have e: "Error exFailed = Some (FetchFailed ErrNoContent)"
    by (simp add: exFailed_def)
  have v: "map_option (map TimePosted \<circ> Videos) (update False worldOnly2 50 exFailed)
       = Some (map unixTime [7])"
    by code_simp
  obtain w' where u: "update False worldOnly2 50 exFailed = Some w'"
    using v by (cases "update False worldOnly2 50 exFailed") auto
  have f: "fetchBilibiliUserVideos worldOnly2 (needUpdate False exFailed 50)
            = Some ([mkVideo ''2'' (exItem ''BV2'' 7)], None)"
    by code_simp
  from update_keeps_Error [of exFailed False worldOnly2 50] u f
  have "Error w' = Error exFailed" by auto
  then show ?thesis using l e v u by simp
qed

end
